theory Spec2Isabelle
  imports Main "HOL-Library.AList"
begin

section \<open>JavaScript values that reach the tracker\<close>

text \<open>
  The speaking-time tracker (\<^verbatim>\<open>src/utils/speakingTimeTracker.js\<close>) is plain JavaScript.
  Arguments that the code tests with \<^verbatim>\<open>!x\<close>, \<^verbatim>\<open>typeof x\<close> or \<^verbatim>\<open>===\<close> are modelled by
  a datatype of primitive values. Numbers are integers: the clock \<^verbatim>\<open>Date.now()\<close> counts
  whole milliseconds, and every number the tracker computes is a sum or difference of
  clock readings. Strings are lists of characters.
\<close>

datatype jsval = JUndefined | JNull | JBool bool | JNum int | JStr string

datatype error = TypeError

definition digit_char :: "nat \<Rightarrow> char" where
  "digit_char d = ''0123456789'' ! d"

text \<open>Decimal rendering of a number, as a template literal or \<^verbatim>\<open>toString()\<close> gives it.\<close>

fun show_nat :: "nat \<Rightarrow> string" where
  "show_nat n = (if n < 10 then [digit_char n] else show_nat (n div 10) @ [digit_char (n mod 10)])"

declare show_nat.simps [simp del]

definition show_int :: "int \<Rightarrow> string" where
  "show_int i = (if i < 0 then CHR ''-'' # show_nat (nat (- i)) else show_nat (nat i))"

text \<open>The property key that \<^verbatim>\<open>obj[v]\<close> uses for a primitive \<^verbatim>\<open>v\<close>.\<close>

definition to_key :: "jsval \<Rightarrow> string" where
  "to_key v =
     (case v of
        JUndefined \<Rightarrow> ''undefined''
      | JNull \<Rightarrow> ''null''
      | JBool b \<Rightarrow> (if b then ''true'' else ''false'')
      | JNum i \<Rightarrow> show_int i
      | JStr s \<Rightarrow> s)"

text \<open>
  \<^verbatim>\<open>String.prototype.trim\<close> on the white space that a byte string can hold: tab, line
  feed, vertical tab, form feed, carriage return and space.
\<close>

definition is_space :: "char \<Rightarrow> bool" where
  "is_space c = (c \<in> set [CHR 0x09, CHR 0x0A, CHR 0x0B, CHR 0x0C, CHR 0x0D, CHR 0x20])"

definition trim :: "string \<Rightarrow> string" where
  "trim s = rev (dropWhile is_space (rev (dropWhile is_space s)))"

definition padStart2 :: "string \<Rightarrow> string" where
  "padStart2 s = replicate (2 - length s) (CHR ''0'') @ s"

section \<open>Time formatter\<close>

text \<open>
  The argument of \<^verbatim>\<open>formatTime\<close>: \<^verbatim>\<open>undefined\<close>, \<^verbatim>\<open>null\<close>, a value for which
  \<^verbatim>\<open>isNaN\<close> holds (\<^verbatim>\<open>NaN\<close> itself, a non-numeric string, an object), or a whole number of
  milliseconds.
\<close>

datatype msval = MsUndefined | MsNull | MsNaN | MsNum int

definition formatTime :: "msval \<Rightarrow> string" where
  "formatTime ms =
     (case ms of
        MsNum n \<Rightarrow>
          if n < 0 then ''0:00''
          else
            let seconds = nat (n div 1000);
                minutes = seconds div 60;
                hours = minutes div 60
            in if hours > 0
               then show_nat hours @ '':'' @ padStart2 (show_nat (minutes mod 60)) @ '':'' @
                    padStart2 (show_nat (seconds mod 60))
               else show_nat minutes @ '':'' @ padStart2 (show_nat (seconds mod 60))
      | _ \<Rightarrow> ''0:00'')"

section \<open>Data model and store\<close>

text \<open>
  A tracking state is a JavaScript object whose \<^verbatim>\<open>parties\<close> field refers to a second
  object (participant name to participant record) and whose \<^verbatim>\<open>timeline\<close> field refers
  to an array. Every operation starts with the shallow copy \<^verbatim>\<open>{ ...state }\<close>: the copy has
  fields of its own, but its \<^verbatim>\<open>parties\<close> and \<^verbatim>\<open>timeline\<close> fields refer to the same object
  and the same array as the original. The model keeps that sharing: a state is a record
  of field values, two of which are addresses into a store. The top-level record is a
  value, since no operation ever writes to a field of the state it was given.

  A participant record and its \<^verbatim>\<open>segments\<close> array are stored inside the parties object
  that holds them; the module never hands out a second reference to either. A parties
  object is an association list in insertion order. Properties inherited from
  \<^verbatim>\<open>Object.prototype\<close> and the special order of integer-like keys are not modelled.
  A field that may hold \<^verbatim>\<open>null\<close> or be missing is an option.
\<close>

type_synonym addr = nat

record segment =
  seg_start :: "int option"
  seg_end :: int
  seg_duration :: int

record participant =
  totalTime :: int
  segments :: "segment list option"

record timeline_entry =
  tl_party :: string
  tl_start :: "int option"
  tl_end :: int
  tl_duration :: msval

type_synonym parties_obj = "(string \<times> participant) list"

record heap =
  parties_objs :: "parties_obj list"
  timeline_arrs :: "timeline_entry list list"

record state =
  parties :: "addr option"
  currentSpeaker :: "string option"
  startTime :: "int option"
  hearingStartTime :: "int option"
  hearingEndTime :: "int option"
  isActive :: bool
  isPaused :: bool
  timeline :: "addr option"

definition empty_heap :: heap where
  "empty_heap = \<lparr>parties_objs = [], timeline_arrs = []\<rparr>"

definition alloc_parties :: "heap \<Rightarrow> parties_obj \<Rightarrow> heap \<times> addr" where
  "alloc_parties h obj = (h\<lparr>parties_objs := parties_objs h @ [obj]\<rparr>, length (parties_objs h))"

definition alloc_timeline :: "heap \<Rightarrow> timeline_entry list \<Rightarrow> heap \<times> addr" where
  "alloc_timeline h arr = (h\<lparr>timeline_arrs := timeline_arrs h @ [arr]\<rparr>, length (timeline_arrs h))"

definition get_parties :: "heap \<Rightarrow> addr \<Rightarrow> parties_obj" where
  "get_parties h a = parties_objs h ! a"

definition set_parties :: "heap \<Rightarrow> addr \<Rightarrow> parties_obj \<Rightarrow> heap" where
  "set_parties h a obj = h\<lparr>parties_objs := (parties_objs h)[a := obj]\<rparr>"

definition get_timeline :: "heap \<Rightarrow> addr \<Rightarrow> timeline_entry list" where
  "get_timeline h a = timeline_arrs h ! a"

definition push_timeline :: "heap \<Rightarrow> addr \<Rightarrow> timeline_entry \<Rightarrow> heap" where
  "push_timeline h a e = h\<lparr>timeline_arrs := (timeline_arrs h)[a := timeline_arrs h ! a @ [e]]\<rparr>"

text \<open>
  A state is valid in a store when its two references are allocated. JavaScript has no
  dangling references, so every state the code can receive is valid.
\<close>

definition valid :: "heap \<Rightarrow> state \<Rightarrow> bool" where
  "valid h s =
     ((case parties s of None \<Rightarrow> True | Some a \<Rightarrow> a < length (parties_objs h)) \<and>
      (case timeline s of None \<Rightarrow> True | Some a \<Rightarrow> a < length (timeline_arrs h)))"

text \<open>What a holder of the state can observe: its own fields and the objects they refer to.\<close>

definition snapshot ::
  "heap \<Rightarrow> state \<Rightarrow> state \<times> parties_obj option \<times> timeline_entry list option" where
  "snapshot h s =
     (s, map_option (get_parties h) (parties s), map_option (get_timeline h) (timeline s))"

definition truthy_time :: "int option \<Rightarrow> bool" where
  "truthy_time t = (case t of None \<Rightarrow> False | Some n \<Rightarrow> n \<noteq> 0)"

definition new_participant :: participant where
  "new_participant = \<lparr>totalTime = 0, segments = Some []\<rparr>"

section \<open>Tracking state machine\<close>

definition default_parties :: "string list" where
  "default_parties = [''State'', ''Defense'', ''Court'']"

text \<open>
  \<^verbatim>\<open>initializeSpeakingTime(parties)\<close>. The argument is \<open>None\<close> when it is missing,
  \<^verbatim>\<open>null\<close> or not an array. The object literal allocates the parties object, then the
  timeline array.
\<close>

definition initializeSpeakingTime :: "heap \<Rightarrow> string list option \<Rightarrow> heap \<times> state" where
  "initializeSpeakingTime h arg =
     (let ps = (case arg of None \<Rightarrow> default_parties | Some l \<Rightarrow> l);
          obj = fold (\<lambda>party acc. AList.update party new_participant acc) ps [];
          (h1, pa) = alloc_parties h obj;
          (h2, ta) = alloc_timeline h1 []
      in (h2,
          \<lparr>parties = Some pa, currentSpeaker = None, startTime = None,
           hearingStartTime = None, hearingEndTime = None,
           isActive = False, isPaused = False, timeline = Some ta\<rparr>))"

text \<open>\<^verbatim>\<open>if (!newState.parties) newState.parties = {}\<close>, returning the address in use.\<close>

definition ensure_parties :: "heap \<Rightarrow> state \<Rightarrow> heap \<times> state \<times> addr" where
  "ensure_parties h s =
     (case parties s of
        Some a \<Rightarrow> (h, s, a)
      | None \<Rightarrow> (let (h1, a) = alloc_parties h [] in (h1, s\<lparr>parties := Some a\<rparr>, a)))"

text \<open>\<^verbatim>\<open>if (!newState.timeline) newState.timeline = []\<close>, returning the address in use.\<close>

definition ensure_timeline :: "heap \<Rightarrow> state \<Rightarrow> heap \<times> state \<times> addr" where
  "ensure_timeline h s =
     (case timeline s of
        Some a \<Rightarrow> (h, s, a)
      | None \<Rightarrow> (let (h1, a) = alloc_timeline h [] in (h1, s\<lparr>timeline := Some a\<rparr>, a)))"

text \<open>
  The block that closes a turn, the same in \<^verbatim>\<open>startSpeaking\<close> (lines 74 to 95) and
  \<^verbatim>\<open>stopTracking\<close> (lines 139 to 157), for the speaker \<open>cs\<close> with record \<open>p\<close> and
  the turn start \<open>st\<close>. \<^verbatim>\<open>now - null\<close> is \<^verbatim>\<open>now\<close>. A missing \<^verbatim>\<open>segments\<close> array is
  replaced by an empty one before the push.
\<close>

definition turn_duration :: "int \<Rightarrow> int option \<Rightarrow> int" where
  "turn_duration now st = now - (case st of None \<Rightarrow> 0 | Some t \<Rightarrow> t)"

definition segs_of :: "participant \<Rightarrow> segment list" where
  "segs_of p = (case segments p of None \<Rightarrow> [] | Some sg \<Rightarrow> sg)"

definition close_turn :: "int \<Rightarrow> int option \<Rightarrow> participant \<Rightarrow> participant" where
  "close_turn now st p =
     p\<lparr>totalTime := totalTime p + turn_duration now st,
       segments := Some (segs_of p @
         [\<lparr>seg_start = st, seg_end = now, seg_duration = turn_duration now st\<rparr>])\<rparr>"

definition turn_entry :: "int \<Rightarrow> int option \<Rightarrow> string \<Rightarrow> timeline_entry" where
  "turn_entry now st cs =
     \<lparr>tl_party = cs, tl_start = st, tl_end = now, tl_duration = MsNum (turn_duration now st)\<rparr>"

text \<open>
  The three writes of the block go to the parties object at \<open>pa\<close> and the timeline
  array at \<open>ta\<close>, which the caller's state refers to as well.
\<close>

definition finalize_turn ::
  "int \<Rightarrow> heap \<Rightarrow> addr \<Rightarrow> addr \<Rightarrow> string \<Rightarrow> participant \<Rightarrow> int option \<Rightarrow> heap" where
  "finalize_turn now h pa ta cs p st =
     push_timeline
       (set_parties h pa (AList.update cs (close_turn now st p) (get_parties h pa)))
       ta (turn_entry now st cs)"

text \<open>
  \<^verbatim>\<open>if (!parties[name]) parties[name] = { totalTime: 0, segments: [] }\<close>, in
  \<^verbatim>\<open>startSpeaking\<close> (lines 99 to 101) and in \<^verbatim>\<open>addParty\<close> (lines 394 to 399). The new
  key goes to the end of the object.
\<close>

definition register_party :: "heap \<Rightarrow> addr \<Rightarrow> string \<Rightarrow> heap" where
  "register_party h pa name =
     (case map_of (get_parties h pa) name of
        None \<Rightarrow> set_parties h pa (AList.update name new_participant (get_parties h pa))
      | Some _ \<Rightarrow> h)"

text \<open>
  \<^verbatim>\<open>startSpeaking(state, party)\<close> with the clock reading \<open>now\<close>. Nothing inside the
  \<^verbatim>\<open>try\<close> block can throw on values of this model, so the \<^verbatim>\<open>catch\<close> branch has no
  counterpart.
\<close>

definition startSpeaking :: "int \<Rightarrow> heap \<Rightarrow> state option \<Rightarrow> jsval \<Rightarrow> heap \<times> state" where
  "startSpeaking now h st party =
     (case st of
        None \<Rightarrow> initializeSpeakingTime h None
      | Some state \<Rightarrow>
          (case party of
             JStr name \<Rightarrow>
               if name = [] then (h, state)
               else
                 let (h1, s1, pa) = ensure_parties h state;
                     (h2, s2, ta) = ensure_timeline h1 s1;
                     s3 = (if \<not> truthy_time (hearingStartTime s2)
                           then s2\<lparr>hearingStartTime := Some now, isActive := True\<rparr> else s2);
                     h3 = (case currentSpeaker s3 of
                             None \<Rightarrow> h2
                           | Some cs \<Rightarrow>
                               if cs \<noteq> [] \<and> cs \<noteq> name
                               then (case map_of (get_parties h2 pa) cs of
                                       None \<Rightarrow> h2
                                     | Some p \<Rightarrow> finalize_turn now h2 pa ta cs p (startTime s3))
                               else h2);
                     h4 = register_party h3 pa name
                 in (h4, s3\<lparr>currentSpeaker := Some name, startTime := Some now, isPaused := False\<rparr>)
           | _ \<Rightarrow> (h, state)))"

text \<open>\<^verbatim>\<open>stopTracking(state)\<close> with the clock reading \<open>now\<close>.\<close>

definition stopTracking :: "int \<Rightarrow> heap \<Rightarrow> state option \<Rightarrow> heap \<times> state" where
  "stopTracking now h st =
     (case st of
        None \<Rightarrow> initializeSpeakingTime h None
      | Some state \<Rightarrow>
          let (h1, s1, pa) = ensure_parties h state;
              (h2, s2, ta) = ensure_timeline h1 s1;
              h3 = (case currentSpeaker s2 of
                      None \<Rightarrow> h2
                    | Some cs \<Rightarrow>
                        if cs \<noteq> [] \<and> truthy_time (startTime s2)
                        then (case map_of (get_parties h2 pa) cs of
                                None \<Rightarrow> h2
                              | Some p \<Rightarrow> finalize_turn now h2 pa ta cs p (startTime s2))
                        else h2)
          in (h3, s2\<lparr>hearingEndTime := Some now, currentSpeaker := None, startTime := None,
                     isActive := False, isPaused := True\<rparr>))"

section \<open>Party registry\<close>

text \<open>
  \<^verbatim>\<open>addParty(state, partyName)\<close>. The guard
  \<^verbatim>\<open>!partyName || typeof partyName !== 'string' || partyName.trim() === ''\<close>
  rejects every value that is not a string, the empty string, and a string of white space.
  The name is stored as given.
\<close>

definition addParty :: "heap \<Rightarrow> state option \<Rightarrow> jsval \<Rightarrow> heap \<times> state" where
  "addParty h st partyName =
     (let (h0, state) = (case st of None \<Rightarrow> initializeSpeakingTime h None | Some s \<Rightarrow> (h, s))
      in case partyName of
           JStr name \<Rightarrow>
             if name = [] \<or> trim name = [] then (h0, state)
             else
               let (h1, newState, pa) = ensure_parties h0 state;
                   h2 = register_party h1 pa name
               in (h2, newState)
         | _ \<Rightarrow> (h0, state))"

text \<open>The value of \<^verbatim>\<open>currentSpeaker\<close> as \<^verbatim>\<open>===\<close> sees it: \<^verbatim>\<open>null\<close> or a string.\<close>

definition speaker_val :: "string option \<Rightarrow> jsval" where
  "speaker_val cs = (case cs of None \<Rightarrow> JNull | Some n \<Rightarrow> JStr n)"

text \<open>
  \<^verbatim>\<open>removeParty(state, partyName)\<close> has no guard for an absent state and no \<^verbatim>\<open>try\<close>.
  The copy of an absent state is the empty object, whose \<^verbatim>\<open>currentSpeaker\<close> is
  \<^verbatim>\<open>undefined\<close>; \<^verbatim>\<open>delete newState.parties[partyName]\<close> throws a \<^verbatim>\<open>TypeError\<close> when
  \<^verbatim>\<open>newState.parties\<close> is \<^verbatim>\<open>undefined\<close> or \<^verbatim>\<open>null\<close>. The deletion acts on the parties
  object that the caller's state refers to.
\<close>

definition removeParty :: "heap \<Rightarrow> state option \<Rightarrow> jsval \<Rightarrow> error + heap \<times> state option" where
  "removeParty h st partyName =
     (case st of
        None \<Rightarrow> if JUndefined = partyName then Inr (h, None) else Inl TypeError
      | Some state \<Rightarrow>
          if speaker_val (currentSpeaker state) = partyName then Inr (h, Some state)
          else (case parties state of
                  None \<Rightarrow> Inl TypeError
                | Some pa \<Rightarrow>
                    Inr (set_parties h pa (AList.delete (to_key partyName) (get_parties h pa)),
                         Some state)))"

section \<open>Statistics engine\<close>

record party_stats =
  ps_totalTime :: int
  ps_percentage :: string
  ps_segmentCount :: nat
  ps_averageSegmentTime :: int

record stats =
  totalHearingTime :: int
  totalSpeakingTime :: int
  silenceTime :: int
  stats_parties :: "(string \<times> party_stats) list"

text \<open>\<^verbatim>\<open>x || 0\<close> for a timestamp that is \<^verbatim>\<open>null\<close> or a number.\<close>

definition or0 :: "int option \<Rightarrow> int" where
  "or0 t = (case t of None \<Rightarrow> 0 | Some n \<Rightarrow> n)"

definition empty_stats :: stats where
  "empty_stats =
     \<lparr>totalHearingTime = 0, totalSpeakingTime = 0, silenceTime = 0, stats_parties = []\<rparr>"

text \<open>\<^verbatim>\<open>Math.round(a / b)\<close> for \<open>b > 0\<close>: the nearest integer, a tie going up.\<close>

definition round_div :: "int \<Rightarrow> int \<Rightarrow> int" where
  "round_div a b = (2 * a + b) div (2 * b)"

text \<open>
  \<^verbatim>\<open>calculateStatistics(state)\<close>. The percentage string
  \<^verbatim>\<open>(totalTime / totalSpeakingTime * 100).toFixed(1)\<close> is a floating-point rendering; it
  is the parameter \<open>toFixed1\<close>, applied to \<open>totalTime\<close> and \<open>totalSpeakingTime\<close>.
\<close>

definition party_statistics :: "(int \<Rightarrow> int \<Rightarrow> string) \<Rightarrow> int \<Rightarrow> participant \<Rightarrow> party_stats" where
  "party_statistics toFixed1 speaking partyData =
     (let segs = segs_of partyData
      in \<lparr>ps_totalTime = totalTime partyData,
          ps_percentage =
            (if speaking > 0 then toFixed1 (totalTime partyData) speaking else ''0''),
          ps_segmentCount = length segs,
          ps_averageSegmentTime =
            (if length segs > 0 then round_div (totalTime partyData) (int (length segs)) else 0)\<rparr>)"

definition calculateStatistics :: "(int \<Rightarrow> int \<Rightarrow> string) \<Rightarrow> heap \<Rightarrow> state option \<Rightarrow> stats" where
  "calculateStatistics toFixed1 h st =
     (case st of
        None \<Rightarrow> empty_stats
      | Some state \<Rightarrow>
          let total = or0 (hearingEndTime state) - or0 (hearingStartTime state);
              ps = (case parties state of None \<Rightarrow> [] | Some pa \<Rightarrow> get_parties h pa);
              speaking = foldl (\<lambda>sum party. sum + totalTime party) 0 (map snd ps)
          in \<lparr>totalHearingTime = max 0 total,
              totalSpeakingTime = speaking,
              silenceTime = max 0 (total - speaking),
              stats_parties =
                map (\<lambda>(partyName, partyData).
                       (partyName, party_statistics toFixed1 speaking partyData)) ps\<rparr>)"

section \<open>Text report\<close>

definition nl :: string where
  "nl = [CHR 0x0A]"

text \<open>\<^verbatim>\<open>hearingInfo[key] || 'N/A'\<close>.\<close>

definition info_or_na :: "(string \<rightharpoonup> string) \<Rightarrow> string \<Rightarrow> string" where
  "info_or_na info k = (case info k of None \<Rightarrow> ''N/A'' | Some v \<Rightarrow> if v = [] then ''N/A'' else v)"

definition party_block :: "string \<times> party_stats \<Rightarrow> string" where
  "party_block = (\<lambda>(party, d).
     party @ '':'' @ nl @
     ''  Total Time: '' @ formatTime (MsNum (ps_totalTime d)) @ '' ('' @ ps_percentage d @ ''%)'' @ nl @
     ''  Speaking Turns: '' @ show_nat (ps_segmentCount d) @ nl @
     ''  Average per Turn: '' @ formatTime (MsNum (ps_averageSegmentTime d)) @ nl @ nl)"

text \<open>
  The report up to and including the \<^verbatim>\<open>TIMELINE\<close> heading. \<open>toLocaleString\<close> stands
  for \<^verbatim>\<open>new Date(t).toLocaleString()\<close>, which depends on the locale of the host.
  \<^verbatim>\<open>Array.prototype.sort\<close> is stable; so is \<open>sort_key\<close>.
\<close>

definition report_head ::
  "(int \<Rightarrow> string) \<Rightarrow> stats \<Rightarrow> state \<Rightarrow> (string \<rightharpoonup> string) \<Rightarrow> string" where
  "report_head toLocaleString st state hearingInfo =
     ''SPEAKING TIME REPORT'' @ nl @
     ''===================='' @ nl @ nl @
     ''Case: '' @ info_or_na hearingInfo ''Case Number'' @ nl @
     ''Client: '' @ info_or_na hearingInfo ''Client Name'' @ nl @
     ''Division: '' @ info_or_na hearingInfo ''Division'' @ nl @
     ''Date: '' @
       (case hearingStartTime state of
          None \<Rightarrow> ''N/A''
        | Some t \<Rightarrow> if t \<noteq> 0 then toLocaleString t else ''N/A'') @ nl @ nl @
     ''SUMMARY'' @ nl @
     ''-------'' @ nl @
     ''Total Hearing Duration: '' @ formatTime (MsNum (totalHearingTime st)) @ nl @
     ''Total Speaking Time: '' @ formatTime (MsNum (totalSpeakingTime st)) @ nl @
     ''Silence/Transitions: '' @ formatTime (MsNum (silenceTime st)) @ nl @ nl @
     ''SPEAKING TIME BY PARTY'' @ nl @
     ''---------------------'' @ nl @
     concat (map party_block (sort_key (\<lambda>(party, d). - ps_totalTime d) (stats_parties st))) @
     ''TIMELINE'' @ nl @
     ''--------'' @ nl"

text \<open>
  The line of the \<^verbatim>\<open>TIMELINE\<close> section for the entry at \<open>index\<close> whose start is
  \<open>t\<close>. \<open>toLocaleTimeString\<close> stands for \<^verbatim>\<open>new Date(t).toLocaleTimeString()\<close>.
\<close>

definition entry_line :: "(int \<Rightarrow> string) \<Rightarrow> nat \<Rightarrow> int \<Rightarrow> timeline_entry \<Rightarrow> string" where
  "entry_line toLocaleTimeString index t segment =
     show_nat (index + 1) @ ''. '' @ toLocaleTimeString t @ '' - '' @ tl_party segment @
     '' ('' @ formatTime (tl_duration segment) @ '')'' @ nl"

text \<open>
  One step of \<^verbatim>\<open>timeline.forEach((segment, index) => ...)\<close>: the guard
  \<^verbatim>\<open>segment.start && segment.party && segment.duration !== undefined\<close>, then the line
  appended to the report.
\<close>

definition timeline_step ::
  "(int \<Rightarrow> string) \<Rightarrow> nat \<times> timeline_entry \<Rightarrow> string \<Rightarrow> string" where
  "timeline_step toLocaleTimeString = (\<lambda>(index, segment) report.
     (case tl_start segment of
        None \<Rightarrow> report
      | Some t \<Rightarrow>
          if t \<noteq> 0 \<and> tl_party segment \<noteq> [] \<and> tl_duration segment \<noteq> MsUndefined
          then report @ entry_line toLocaleTimeString index t segment
          else report))"

text \<open>
  \<^verbatim>\<open>generateTextReport(state, hearingInfo)\<close>. An absent state is replaced by a fresh
  default state, an absent \<^verbatim>\<open>hearingInfo\<close> by the empty object.
\<close>

definition generateTextReport ::
  "(int \<Rightarrow> string) \<Rightarrow> (int \<Rightarrow> string) \<Rightarrow> (int \<Rightarrow> int \<Rightarrow> string) \<Rightarrow>
   heap \<Rightarrow> state option \<Rightarrow> (string \<rightharpoonup> string) option \<Rightarrow> string" where
  "generateTextReport toLocaleString toLocaleTimeString toFixed1 h st info =
     (let (h0, state) = (case st of None \<Rightarrow> initializeSpeakingTime h None | Some s \<Rightarrow> (h, s));
          hearingInfo = (case info of None \<Rightarrow> Map.empty | Some i \<Rightarrow> i);
          st1 = calculateStatistics toFixed1 h0 (Some state);
          report = report_head toLocaleString st1 state hearingInfo;
          tl = (case timeline state of None \<Rightarrow> [] | Some ta \<Rightarrow> get_timeline h0 ta)
      in fold (timeline_step toLocaleTimeString) (enumerate 0 tl) report)"

section \<open>Reachable states and scripted runs\<close>

text \<open>
  The states that a caller obtains from \<^verbatim>\<open>initializeSpeakingTime\<close> by threading the
  result of each call into the next, the clock reading of each call being arbitrary.
\<close>

inductive reachable :: "heap \<Rightarrow> state \<Rightarrow> bool" where
  r_init: "initializeSpeakingTime h0 arg = (h, s) \<Longrightarrow> reachable h s"
| r_start: "reachable h s \<Longrightarrow> startSpeaking now h (Some s) party = (h1, s1) \<Longrightarrow> reachable h1 s1"
| r_stop: "reachable h s \<Longrightarrow> stopTracking now h (Some s) = (h1, s1) \<Longrightarrow> reachable h1 s1"
| r_add: "reachable h s \<Longrightarrow> addParty h (Some s) name = (h1, s1) \<Longrightarrow> reachable h1 s1"
| r_remove: "reachable h s \<Longrightarrow> removeParty h (Some s) name = Inr (h1, Some s1) \<Longrightarrow> reachable h1 s1"



definition duration_sum :: "participant \<Rightarrow> int" where
  "duration_sum p = sum_list (map seg_duration (segs_of p))"

text \<open>The participants and the timeline that a state refers to.\<close>

definition participants :: "heap \<Rightarrow> state \<Rightarrow> parties_obj" where
  "participants h s = (case parties s of None \<Rightarrow> [] | Some pa \<Rightarrow> get_parties h pa)"

definition timeline_of :: "heap \<Rightarrow> state \<Rightarrow> timeline_entry list" where
  "timeline_of h s = (case timeline s of None \<Rightarrow> [] | Some ta \<Rightarrow> get_timeline h ta)"

text \<open>
  The parties object after the registration step, and the sum that
  \<^verbatim>\<open>calculateStatistics\<close> computes over it.
\<close>

definition registered :: "string \<Rightarrow> parties_obj \<Rightarrow> parties_obj" where
  "registered k obj =
     (case map_of obj k of None \<Rightarrow> AList.update k new_participant obj | Some _ \<Rightarrow> obj)"

definition sum_times :: "parties_obj \<Rightarrow> int" where
  "sum_times obj = sum_list (map (\<lambda>(n, p). totalTime p) obj)"

text \<open>
  A state whose two references are allocated and whose parties object and timeline
  array satisfy \<open>P\<close>.
\<close>

definition wf_with :: "(parties_obj \<Rightarrow> timeline_entry list \<Rightarrow> bool) \<Rightarrow> heap \<Rightarrow> state \<Rightarrow> bool" where
  "wf_with P h s =
     (case (parties s, timeline s) of
        (Some pa, Some ta) \<Rightarrow>
          pa < length (parties_objs h) \<and> ta < length (timeline_arrs h) \<and>
          P (get_parties h pa) (get_timeline h ta)
      | _ \<Rightarrow> False)"

text \<open>
  Scripted runs on the empty store. \<open>run_a\<close>: two participants, \<^verbatim>\<open>State\<close> speaks at
  1000, \<^verbatim>\<open>Defense\<close> at 6000, stop at 9000, \<^verbatim>\<open>State\<close> again at 12000.
\<close>

definition run_a0 :: "heap \<times> state" where
  "run_a0 = initializeSpeakingTime empty_heap (Some [''State'', ''Defense''])"

definition run_a1 :: "heap \<times> state" where
  "run_a1 = startSpeaking 1000 (fst run_a0) (Some (snd run_a0)) (JStr ''State'')"

definition run_a2 :: "heap \<times> state" where
  "run_a2 = startSpeaking 6000 (fst run_a1) (Some (snd run_a1)) (JStr ''Defense'')"

definition run_a3 :: "heap \<times> state" where
  "run_a3 = stopTracking 9000 (fst run_a2) (Some (snd run_a2))"

definition run_a4 :: "heap \<times> state" where
  "run_a4 = startSpeaking 12000 (fst run_a3) (Some (snd run_a3)) (JStr ''State'')"

text \<open>\<^verbatim>\<open>State\<close> clicked again at 2000 while speaking since 1000.\<close>

definition run_same :: "heap \<times> state" where
  "run_same = startSpeaking 2000 (fst run_a1) (Some (snd run_a1)) (JStr ''State'')"

text \<open>A participant added to the initial state, one with a padded name, and one removed
  after it has spoken.\<close>

definition run_add :: "heap \<times> state" where
  "run_add = addParty (fst run_a0) (Some (snd run_a0)) (JStr ''Court'')"



text \<open>The round trip of two speakers with the clock starting at 0: \<^verbatim>\<open>State\<close> at 0,
  \<^verbatim>\<open>Defense\<close> at 5000, stop at 8000.\<close>

definition run_z0 :: "heap \<times> state" where
  "run_z0 = initializeSpeakingTime empty_heap (Some [''State'', ''Defense''])"

definition run_z1 :: "heap \<times> state" where
  "run_z1 = startSpeaking 0 (fst run_z0) (Some (snd run_z0)) (JStr ''State'')"

definition run_z2 :: "heap \<times> state" where
  "run_z2 = startSpeaking 5000 (fst run_z1) (Some (snd run_z1)) (JStr ''Defense'')"

definition run_z3 :: "heap \<times> state" where
  "run_z3 = stopTracking 8000 (fst run_z2) (Some (snd run_z2))"

section \<open>Unfolding rules\<close>

lemmas store_defs = alloc_parties_def alloc_timeline_def get_parties_def set_parties_def
  get_timeline_def push_timeline_def empty_heap_def

lemmas op_defs = initializeSpeakingTime_def ensure_parties_def ensure_timeline_def
  finalize_turn_def startSpeaking_def stopTracking_def addParty_def removeParty_def
  register_party_def close_turn_def turn_entry_def turn_duration_def segs_of_def
  truthy_time_def speaker_val_def to_key_def new_participant_def

section \<open>Time formatter: claim C8\<close>



lemma show_nat_nonempty: "show_nat n \<noteq> []"
  by (subst show_nat.simps) simp





section \<open>The scripted runs, evaluated\<close>

lemma run_a0_val:
  "run_a0 =
     (\<lparr>parties_objs = [[(''State'', \<lparr>totalTime = 0, segments = Some []\<rparr>),
                        (''Defense'', \<lparr>totalTime = 0, segments = Some []\<rparr>)]],
       timeline_arrs = [[]]\<rparr>,
      \<lparr>parties = Some 0, currentSpeaker = None, startTime = None, hearingStartTime = None,
       hearingEndTime = None, isActive = False, isPaused = False, timeline = Some 0\<rparr>)"
  by (simp add: run_a0_def op_defs store_defs)

lemma run_a1_val:
  "run_a1 =
     (\<lparr>parties_objs = [[(''State'', \<lparr>totalTime = 0, segments = Some []\<rparr>),
                        (''Defense'', \<lparr>totalTime = 0, segments = Some []\<rparr>)]],
       timeline_arrs = [[]]\<rparr>,
      \<lparr>parties = Some 0, currentSpeaker = Some ''State'', startTime = Some 1000,
       hearingStartTime = Some 1000, hearingEndTime = None, isActive = True,
       isPaused = False, timeline = Some 0\<rparr>)"
  by (simp add: run_a1_def run_a0_val op_defs store_defs)

lemma run_a2_val:
  "run_a2 =
     (\<lparr>parties_objs =
         [[(''State'', \<lparr>totalTime = 5000,
              segments = Some [\<lparr>seg_start = Some 1000, seg_end = 6000, seg_duration = 5000\<rparr>]\<rparr>),
           (''Defense'', \<lparr>totalTime = 0, segments = Some []\<rparr>)]],
       timeline_arrs =
         [[\<lparr>tl_party = ''State'', tl_start = Some 1000, tl_end = 6000,
            tl_duration = MsNum 5000\<rparr>]]\<rparr>,
      \<lparr>parties = Some 0, currentSpeaker = Some ''Defense'', startTime = Some 6000,
       hearingStartTime = Some 1000, hearingEndTime = None, isActive = True,
       isPaused = False, timeline = Some 0\<rparr>)"
  by (simp add: run_a2_def run_a1_val op_defs store_defs)

lemma run_a3_val:
  "run_a3 =
     (\<lparr>parties_objs =
         [[(''State'', \<lparr>totalTime = 5000,
              segments = Some [\<lparr>seg_start = Some 1000, seg_end = 6000, seg_duration = 5000\<rparr>]\<rparr>),
           (''Defense'', \<lparr>totalTime = 3000,
              segments = Some [\<lparr>seg_start = Some 6000, seg_end = 9000, seg_duration = 3000\<rparr>]\<rparr>)]],
       timeline_arrs =
         [[\<lparr>tl_party = ''State'', tl_start = Some 1000, tl_end = 6000,
            tl_duration = MsNum 5000\<rparr>,
           \<lparr>tl_party = ''Defense'', tl_start = Some 6000, tl_end = 9000,
            tl_duration = MsNum 3000\<rparr>]]\<rparr>,
      \<lparr>parties = Some 0, currentSpeaker = None, startTime = None,
       hearingStartTime = Some 1000, hearingEndTime = Some 9000, isActive = False,
       isPaused = True, timeline = Some 0\<rparr>)"
  by (simp add: run_a3_def run_a2_val op_defs store_defs)

lemma run_a4_val:
  "run_a4 =
     (fst run_a3,
      \<lparr>parties = Some 0, currentSpeaker = Some ''State'', startTime = Some 12000,
       hearingStartTime = Some 1000, hearingEndTime = Some 9000, isActive = False,
       isPaused = False, timeline = Some 0\<rparr>)"
  by (simp add: run_a4_def run_a3_val op_defs store_defs)

lemma run_add_val:
  "run_add =
     (\<lparr>parties_objs = [[(''State'', \<lparr>totalTime = 0, segments = Some []\<rparr>),
                        (''Defense'', \<lparr>totalTime = 0, segments = Some []\<rparr>),
                        (''Court'', \<lparr>totalTime = 0, segments = Some []\<rparr>)]],
       timeline_arrs = [[]]\<rparr>,
      snd run_a0)"
  by (simp add: run_add_def run_a0_val op_defs trim_def is_space_def store_defs)

lemma run_z2_val:
  "run_z2 =
     (\<lparr>parties_objs =
         [[(''State'', \<lparr>totalTime = 5000,
              segments = Some [\<lparr>seg_start = Some 0, seg_end = 5000, seg_duration = 5000\<rparr>]\<rparr>),
           (''Defense'', \<lparr>totalTime = 0, segments = Some []\<rparr>)]],
       timeline_arrs =
         [[\<lparr>tl_party = ''State'', tl_start = Some 0, tl_end = 5000, tl_duration = MsNum 5000\<rparr>]]\<rparr>,
      \<lparr>parties = Some 0, currentSpeaker = Some ''Defense'', startTime = Some 5000,
       hearingStartTime = Some 5000, hearingEndTime = None, isActive = True,
       isPaused = False, timeline = Some 0\<rparr>)"
  by (simp add: run_z2_def run_z1_def run_z0_def op_defs store_defs)

lemma run_z3_val:
  "run_z3 =
     (\<lparr>parties_objs =
         [[(''State'', \<lparr>totalTime = 5000,
              segments = Some [\<lparr>seg_start = Some 0, seg_end = 5000, seg_duration = 5000\<rparr>]\<rparr>),
           (''Defense'', \<lparr>totalTime = 3000,
              segments = Some [\<lparr>seg_start = Some 5000, seg_end = 8000, seg_duration = 3000\<rparr>]\<rparr>)]],
       timeline_arrs =
         [[\<lparr>tl_party = ''State'', tl_start = Some 0, tl_end = 5000, tl_duration = MsNum 5000\<rparr>,
           \<lparr>tl_party = ''Defense'', tl_start = Some 5000, tl_end = 8000,
            tl_duration = MsNum 3000\<rparr>]]\<rparr>,
      \<lparr>parties = Some 0, currentSpeaker = None, startTime = None,
       hearingStartTime = Some 5000, hearingEndTime = Some 8000, isActive = False,
       isPaused = True, timeline = Some 0\<rparr>)"
  by (simp add: run_z3_def run_z2_def run_z1_def run_z0_def op_defs store_defs)

lemma run_a_reachable:
  "reachable (fst run_a0) (snd run_a0)" "reachable (fst run_a1) (snd run_a1)"
  "reachable (fst run_a2) (snd run_a2)" "reachable (fst run_a3) (snd run_a3)"
  "reachable (fst run_a4) (snd run_a4)"
proof -
  show r0: "reachable (fst run_a0) (snd run_a0)"
    by (rule r_init[of empty_heap "Some [''State'', ''Defense'']"]) (simp add: run_a0_def)
  show r1: "reachable (fst run_a1) (snd run_a1)"
    by (rule r_start[OF r0, of 1000 "JStr ''State''"]) (simp add: run_a1_def)
  show r2: "reachable (fst run_a2) (snd run_a2)"
    by (rule r_start[OF r1, of 6000 "JStr ''Defense''"]) (simp add: run_a2_def)
  show r3: "reachable (fst run_a3) (snd run_a3)"
    by (rule r_stop[OF r2, of 9000]) (simp add: run_a3_def)
  show "reachable (fst run_a4) (snd run_a4)"
    by (rule r_start[OF r3, of 12000 "JStr ''State''"]) (simp add: run_a4_def)
qed




section \<open>Sharing between a state and its successor: claims C1, C2, C4, C5\<close>

text \<open>
  Claim C1 says that \<^verbatim>\<open>startSpeaking\<close>, \<^verbatim>\<open>stopTracking\<close>, \<^verbatim>\<open>addParty\<close> and
  \<^verbatim>\<open>removeParty\<close> leave the state they are given unaltered, its parties map, the
  participants' \<^verbatim>\<open>totalTime\<close> and \<^verbatim>\<open>segments\<close> and its timeline included. The code
  copies only the top level of the state. At the initial state with \<^verbatim>\<open>State\<close> and
  \<^verbatim>\<open>Defense\<close>, \<^verbatim>\<open>addParty(state, 'Court')\<close> makes \<^verbatim>\<open>Court\<close> appear in the parties of
  the state that was passed in; and when \<^verbatim>\<open>Defense\<close> takes over from \<^verbatim>\<open>State\<close>, the
  state that was passed in sees the \<^verbatim>\<open>totalTime\<close> of \<^verbatim>\<open>State\<close> go from 0 to 5000 and
  gains a segment and a timeline entry.
\<close>

theorem operations_mutate_input:
  "snapshot (fst run_a0) (snd run_a0) =
     (snd run_a0, Some [(''State'', new_participant), (''Defense'', new_participant)], Some []) \<and>
   addParty (fst run_a0) (Some (snd run_a0)) (JStr ''Court'') = run_add \<and>
   snapshot (fst run_add) (snd run_a0) =
     (snd run_a0,
      Some [(''State'', new_participant), (''Defense'', new_participant), (''Court'', new_participant)],
      Some []) \<and>
   snapshot (fst run_a1) (snd run_a1) =
     (snd run_a1, Some [(''State'', new_participant), (''Defense'', new_participant)], Some []) \<and>
   startSpeaking 6000 (fst run_a1) (Some (snd run_a1)) (JStr ''Defense'') = run_a2 \<and>
   snapshot (fst run_a2) (snd run_a1) =
     (snd run_a1,
      Some [(''State'', \<lparr>totalTime = 5000,
               segments = Some [\<lparr>seg_start = Some 1000, seg_end = 6000, seg_duration = 5000\<rparr>]\<rparr>),
            (''Defense'', new_participant)],
      Some [\<lparr>tl_party = ''State'', tl_start = Some 1000, tl_end = 6000, tl_duration = MsNum 5000\<rparr>])"
proof -
  have a: "snapshot (fst run_a0) (snd run_a0) =
     (snd run_a0, Some [(''State'', new_participant), (''Defense'', new_participant)], Some [])"
    by (simp add: snapshot_def run_a0_val store_defs new_participant_def)
  have b: "addParty (fst run_a0) (Some (snd run_a0)) (JStr ''Court'') = run_add"
    by (simp add: run_add_def)
  have c: "snapshot (fst run_add) (snd run_a0) =
     (snd run_a0,
      Some [(''State'', new_participant), (''Defense'', new_participant), (''Court'', new_participant)],
      Some [])"
    by (simp add: snapshot_def run_add_val run_a0_val store_defs new_participant_def)
  have d: "snapshot (fst run_a1) (snd run_a1) =
     (snd run_a1, Some [(''State'', new_participant), (''Defense'', new_participant)], Some [])"
    by (simp add: snapshot_def run_a1_val store_defs new_participant_def)
  have e: "startSpeaking 6000 (fst run_a1) (Some (snd run_a1)) (JStr ''Defense'') = run_a2"
    by (simp add: run_a2_def)
  have f: "snapshot (fst run_a2) (snd run_a1) =
     (snd run_a1,
      Some [(''State'', \<lparr>totalTime = 5000,
               segments = Some [\<lparr>seg_start = Some 1000, seg_end = 6000, seg_duration = 5000\<rparr>]\<rparr>),
            (''Defense'', new_participant)],
      Some [\<lparr>tl_party = ''State'', tl_start = Some 1000, tl_end = 6000, tl_duration = MsNum 5000\<rparr>])"
    by (simp add: snapshot_def run_a1_val run_a2_val store_defs new_participant_def)
  show ?thesis using a b c d e f by blast
qed

text \<open>
  Claim C2 says that in every reachable state \<^verbatim>\<open>currentSpeaker\<close> is set exactly when
  \<^verbatim>\<open>isActive\<close> is true and no stop has occurred since the last start, and that after
  \<^verbatim>\<open>stopTracking\<close> followed by a successful \<^verbatim>\<open>startSpeaking\<close> both hold. The code sets
  \<^verbatim>\<open>isActive\<close> only together with \<^verbatim>\<open>hearingStartTime\<close>, which \<^verbatim>\<open>stopTracking\<close> does not
  clear: in the run start, switch, stop, start the last state has a current speaker and
  is not active.
\<close>

theorem restart_after_stop_not_active:
  "reachable (fst run_a4) (snd run_a4) \<and>
   run_a4 = startSpeaking 12000 (fst run_a3) (Some (snd run_a3)) (JStr ''State'') \<and>
   run_a3 = stopTracking 9000 (fst run_a2) (Some (snd run_a2)) \<and>
   currentSpeaker (snd run_a4) = Some ''State'' \<and> isActive (snd run_a4) = False"
proof -
  have a: "run_a4 = startSpeaking 12000 (fst run_a3) (Some (snd run_a3)) (JStr ''State'')"
    by (simp add: run_a4_def)
  have b: "run_a3 = stopTracking 9000 (fst run_a2) (Some (snd run_a2))"
    by (simp add: run_a3_def)
  have c: "currentSpeaker (snd run_a4) = Some ''State'' \<and> isActive (snd run_a4) = False"
    by (simp add: run_a4_val)
  show ?thesis using run_a_reachable(5) a b c by blast
qed

text \<open>
  Claim C4 says that \<^verbatim>\<open>startSpeaking\<close> for the participant who is already speaking
  leaves \<^verbatim>\<open>startTime\<close> unchanged, also when the clock has advanced. The code assigns
  \<^verbatim>\<open>startTime = now\<close> on every path: \<^verbatim>\<open>State\<close>, speaking since 1000, clicked again at
  2000, has \<^verbatim>\<open>startTime\<close> 2000 afterwards. No segment and no timeline entry is added,
  so the interval from 1000 to 2000 is counted nowhere.
\<close>

theorem same_speaker_resets_startTime:
  "currentSpeaker (snd run_a1) = Some ''State'' \<and> startTime (snd run_a1) = Some 1000 \<and>
   run_same = startSpeaking 2000 (fst run_a1) (Some (snd run_a1)) (JStr ''State'') \<and>
   startTime (snd run_same) = Some 2000 \<and>
   participants (fst run_same) (snd run_same) = participants (fst run_a1) (snd run_a1) \<and>
   timeline_of (fst run_same) (snd run_same) = timeline_of (fst run_a1) (snd run_a1)"
proof -
  have a: "run_same = (fst run_a1, (snd run_a1)\<lparr>startTime := Some 2000\<rparr>)"
    by (simp add: run_same_def run_a1_val op_defs store_defs)
  have b: "run_same = startSpeaking 2000 (fst run_a1) (Some (snd run_a1)) (JStr ''State'')"
    by (simp add: run_same_def)
  have c: "currentSpeaker (snd run_a1) = Some ''State'' \<and> startTime (snd run_a1) = Some 1000"
    by (simp add: run_a1_val)
  have d: "startTime (snd run_same) = Some 2000 \<and>
   participants (fst run_same) (snd run_same) = participants (fst run_a1) (snd run_a1) \<and>
   timeline_of (fst run_same) (snd run_same) = timeline_of (fst run_a1) (snd run_a1)"
    by (simp add: a participants_def timeline_of_def)
  show ?thesis using b c d by blast
qed

text \<open>
  Claim C5 says that each of the four operations returns a value and never raises, also
  for an absent state. \<^verbatim>\<open>removeParty\<close> raises a \<^verbatim>\<open>TypeError\<close> for an absent state
  (unless the name is \<^verbatim>\<open>undefined\<close>) and for a state without \<^verbatim>\<open>parties\<close>.
\<close>

theorem removeParty_absent_state_throws:
  "removeParty empty_heap None (JStr ''State'') = Inl TypeError \<and>
   removeParty empty_heap None JNull = Inl TypeError \<and>
   removeParty (fst run_a0) (Some ((snd run_a0)\<lparr>parties := None\<rparr>)) (JStr ''State'') = Inl TypeError"
  by (simp add: removeParty_def speaker_val_def run_a0_val)

section \<open>Invariants of reachable states: claims C6 and C3\<close>

text \<open>
  Every operation keeps the two references of a state allocated and maps the parties
  object and the timeline array by one of four steps: registering a participant, closing
  a turn, deleting a participant, or nothing. A property of the pair that holds initially
  and is kept by these steps holds in every reachable state.
\<close>

lemma wf_withD:
  "wf_with P h s \<Longrightarrow>
   \<exists>pa ta. parties s = Some pa \<and> timeline s = Some ta \<and> pa < length (parties_objs h) \<and>
     ta < length (timeline_arrs h) \<and> P (get_parties h pa) (get_timeline h ta)"
  by (auto simp: wf_with_def split: option.splits)

lemma wf_with_fields:
  "parties s1 = parties s \<Longrightarrow> timeline s1 = timeline s \<Longrightarrow> wf_with P h s1 = wf_with P h s"
  by (simp add: wf_with_def)

lemma init_wf:
  assumes "initializeSpeakingTime h0 arg = (h, s)"
    and base: "\<And>ps. P (fold (\<lambda>party acc. AList.update party new_participant acc) ps []) []"
  shows "wf_with P h s"
  using assms(1) base
  by (auto simp: initializeSpeakingTime_def Let_def store_defs wf_with_def)

lemma finalize_wf:
  assumes wf: "wf_with P h s" and pa: "parties s = Some pa" and ta: "timeline s = Some ta"
    and p: "map_of (get_parties h pa) cs = Some p"
    and fin: "\<And>obj tl cs p st. P obj tl \<Longrightarrow> map_of obj cs = Some p \<Longrightarrow>
           P (AList.update cs (close_turn now st p) obj) (tl @ [turn_entry now st cs])"
  shows "wf_with P (finalize_turn now h pa ta cs p st) s"
proof -
  from wf pa ta have r: "pa < length (parties_objs h)" "ta < length (timeline_arrs h)"
    and P: "P (get_parties h pa) (get_timeline h ta)"
    by (auto simp: wf_with_def)
  have "P (AList.update cs (close_turn now st p) (get_parties h pa))
          (get_timeline h ta @ [turn_entry now st cs])"
    by (rule fin[OF P p])
  with r pa ta show ?thesis
    by (simp add: wf_with_def finalize_turn_def store_defs)
qed

lemma register_wf:
  assumes wf: "wf_with P h s" and pa: "parties s = Some pa"
    and add: "\<And>obj tl k. P obj tl \<Longrightarrow> map_of obj k = None \<Longrightarrow>
           P (AList.update k new_participant obj) tl"
  shows "wf_with P (register_party h pa name) s"
proof (cases "map_of (get_parties h pa) name")
  case None
  from wf pa obtain ta where ta: "timeline s = Some ta"
    and r: "pa < length (parties_objs h)" "ta < length (timeline_arrs h)"
    and P: "P (get_parties h pa) (get_timeline h ta)"
    by (auto simp: wf_with_def split: option.splits)
  have "P (AList.update name new_participant (get_parties h pa)) (get_timeline h ta)"
    by (rule add[OF P None])
  with r pa ta None show ?thesis
    by (simp add: wf_with_def register_party_def store_defs)
next
  case (Some a)
  with wf show ?thesis by (simp add: register_party_def)
qed

lemma ensure_wf:
  assumes "wf_with P h s" "parties s = Some pa" "timeline s = Some ta"
  shows "ensure_parties h s = (h, s, pa)" "ensure_timeline h s = (h, s, ta)"
  using assms by (simp_all add: ensure_parties_def ensure_timeline_def)

lemma startSpeaking_wf:
  assumes wf: "wf_with P h s" and run: "startSpeaking now h (Some s) party = (h1, s1)"
    and add: "\<And>obj tl k. P obj tl \<Longrightarrow> map_of obj k = None \<Longrightarrow>
           P (AList.update k new_participant obj) tl"
    and fin: "\<And>obj tl cs p st. P obj tl \<Longrightarrow> map_of obj cs = Some p \<Longrightarrow>
           P (AList.update cs (close_turn now st p) obj) (tl @ [turn_entry now st cs])"
  shows "wf_with P h1 s1"
proof -
  from wf obtain pa ta where pa: "parties s = Some pa" and ta: "timeline s = Some ta"
    by (auto dest: wf_withD)
  note en = ensure_wf[OF wf pa ta]
  show ?thesis
  proof (cases "\<exists>name. party = JStr name \<and> name \<noteq> []")
    case False
    then have "startSpeaking now h (Some s) party = (h, s)"
      by (cases party) (auto simp: startSpeaking_def)
    with run wf show ?thesis by simp
  next
    case True
    then obtain name where name: "party = JStr name" "name \<noteq> []" by blast
    define s3 where "s3 = (if \<not> truthy_time (hearingStartTime s)
                           then s\<lparr>hearingStartTime := Some now, isActive := True\<rparr> else s)"
    define h3 where "h3 = (case currentSpeaker s of
                             None \<Rightarrow> h
                           | Some cs \<Rightarrow>
                               if cs \<noteq> [] \<and> cs \<noteq> name
                               then (case map_of (get_parties h pa) cs of
                                       None \<Rightarrow> h
                                     | Some p \<Rightarrow> finalize_turn now h pa ta cs p (startTime s))
                               else h)"
    have f3: "parties s3 = Some pa" "timeline s3 = Some ta"
      using pa ta by (simp_all add: s3_def)
    have wf3: "wf_with P h3 s"
      unfolding h3_def using wf finalize_wf[OF wf pa ta _ fin]
      by (auto split: option.splits)
    have wf4: "wf_with P (register_party h3 pa name) s"
      by (rule register_wf[OF wf3 pa add])
    have "startSpeaking now h (Some s) party =
            (register_party h3 pa name,
             s3\<lparr>currentSpeaker := Some name, startTime := Some now, isPaused := False\<rparr>)"
      using name by (auto simp add: startSpeaking_def en Let_def h3_def s3_def split: option.splits)
    with run have "h1 = register_party h3 pa name"
      "s1 = s3\<lparr>currentSpeaker := Some name, startTime := Some now, isPaused := False\<rparr>"
      by simp_all
    with wf4 f3 pa ta show ?thesis by (simp add: wf_with_def)
  qed
qed

lemma stopTracking_wf:
  assumes wf: "wf_with P h s" and run: "stopTracking now h (Some s) = (h1, s1)"
    and fin: "\<And>obj tl cs p st. P obj tl \<Longrightarrow> map_of obj cs = Some p \<Longrightarrow>
           P (AList.update cs (close_turn now st p) obj) (tl @ [turn_entry now st cs])"
  shows "wf_with P h1 s1"
proof -
  from wf obtain pa ta where pa: "parties s = Some pa" and ta: "timeline s = Some ta"
    by (auto dest: wf_withD)
  note en = ensure_wf[OF wf pa ta]
  define h3 where "h3 = (case currentSpeaker s of
                      None \<Rightarrow> h
                    | Some cs \<Rightarrow>
                        if cs \<noteq> [] \<and> truthy_time (startTime s)
                        then (case map_of (get_parties h pa) cs of
                                None \<Rightarrow> h
                              | Some p \<Rightarrow> finalize_turn now h pa ta cs p (startTime s))
                        else h)"
  have wf3: "wf_with P h3 s"
    unfolding h3_def using wf finalize_wf[OF wf pa ta _ fin]
    by (auto split: option.splits)
  have "stopTracking now h (Some s) =
          (h3, s\<lparr>hearingEndTime := Some now, currentSpeaker := None, startTime := None,
                     isActive := False, isPaused := True\<rparr>)"
    by (simp add: stopTracking_def en Let_def h3_def)
  with run have "h1 = h3" "s1 = s\<lparr>hearingEndTime := Some now, currentSpeaker := None,
      startTime := None, isActive := False, isPaused := True\<rparr>"
    by simp_all
  with wf3 pa ta show ?thesis by (simp add: wf_with_def)
qed

lemma addParty_wf:
  assumes wf: "wf_with P h s" and run: "addParty h (Some s) party = (h1, s1)"
    and add: "\<And>obj tl k. P obj tl \<Longrightarrow> map_of obj k = None \<Longrightarrow>
           P (AList.update k new_participant obj) tl"
  shows "wf_with P h1 s1"
proof -
  from wf obtain pa ta where pa: "parties s = Some pa" and ta: "timeline s = Some ta"
    by (auto dest: wf_withD)
  note en = ensure_wf[OF wf pa ta]
  show ?thesis
  proof (cases "\<exists>name. party = JStr name \<and> name \<noteq> [] \<and> trim name \<noteq> []")
    case False
    then have "addParty h (Some s) party = (h, s)"
      by (cases party) (auto simp: addParty_def)
    with run wf show ?thesis by simp
  next
    case True
    then obtain name where name: "party = JStr name" "name \<noteq> []" "trim name \<noteq> []" by blast
    have "addParty h (Some s) party = (register_party h pa name, s)"
      using name by (simp add: addParty_def en)
    with run have "h1 = register_party h pa name" "s1 = s" by simp_all
    with register_wf[OF wf pa add, of name] show ?thesis by simp
  qed
qed

lemma removeParty_wf:
  assumes wf: "wf_with P h s" and run: "removeParty h (Some s) party = Inr (h1, Some s1)"
    and del: "\<And>obj tl k. P obj tl \<Longrightarrow> P (AList.delete k obj) tl"
  shows "wf_with P h1 s1"
proof -
  from wf obtain pa ta where pa: "parties s = Some pa" and ta: "timeline s = Some ta"
    and r: "pa < length (parties_objs h)" "ta < length (timeline_arrs h)"
    and P: "P (get_parties h pa) (get_timeline h ta)"
    by (auto dest: wf_withD)
  show ?thesis
  proof (cases "speaker_val (currentSpeaker s) = party")
    case True
    with run wf show ?thesis by (simp add: removeParty_def)
  next
    case False
    with run pa have "h1 = set_parties h pa (AList.delete (to_key party) (get_parties h pa))"
      "s1 = s" by (simp_all add: removeParty_def)
    with del[OF P, of "to_key party"] r pa ta show ?thesis
      by (simp add: wf_with_def store_defs)
  qed
qed

lemma reachable_wf:
  assumes r: "reachable h s"
    and base: "\<And>ps. P (fold (\<lambda>party acc. AList.update party new_participant acc) ps []) []"
    and add: "\<And>obj tl k. P obj tl \<Longrightarrow> map_of obj k = None \<Longrightarrow>
           P (AList.update k new_participant obj) tl"
    and fin: "\<And>obj tl cs p st now. P obj tl \<Longrightarrow> map_of obj cs = Some p \<Longrightarrow>
           P (AList.update cs (close_turn now st p) obj) (tl @ [turn_entry now st cs])"
    and del: "\<And>obj tl k. P obj tl \<Longrightarrow> P (AList.delete k obj) tl"
  shows "wf_with P h s"
  using r
proof (induction rule: reachable.induct)
  case (r_init h0 arg h s)
  then show ?case by (rule init_wf) (rule base)
next
  case (r_start h s now party h1 s1)
  show ?case by (rule startSpeaking_wf[OF r_start.IH r_start.hyps(2) add fin])
next
  case (r_stop h s now h1 s1)
  show ?case by (rule stopTracking_wf[OF r_stop.IH r_stop.hyps(2) fin])
next
  case (r_add h s name h1 s1)
  show ?case by (rule addParty_wf[OF r_add.IH r_add.hyps(2) add])
next
  case (r_remove h s name h1 s1)
  show ?case by (rule removeParty_wf[OF r_remove.IH r_remove.hyps(2) del])
qed


lemma wf_with_views:
  "wf_with P h s \<Longrightarrow> valid h s \<and> parties s \<noteq> None \<and> timeline s \<noteq> None \<and>
     P (participants h s) (timeline_of h s)"
  by (auto simp: wf_with_def valid_def participants_def timeline_of_def split: option.splits)

lemma set_update_subset: "set (AList.update k v al) \<subseteq> insert (k, v) (set al)"
  by (induction al) (auto simp: AList.update.simps)

lemma set_delete_subset: "set (AList.delete k al) \<subseteq> set al"
  by (auto simp: AList.delete_eq)

lemma update_absent: "map_of al k = None \<Longrightarrow> AList.update k v al = al @ [(k, v)]"
  by (induction al) (auto split: if_splits)

lemma fold_update_all:
  "\<forall>(n, p) \<in> set acc. Q p \<Longrightarrow> Q v \<Longrightarrow>
   \<forall>(n, p) \<in> set (fold (\<lambda>party acc. AList.update party v acc) ps acc). Q p"
proof (induction ps arbitrary: acc)
  case Nil
  then show ?case by simp
next
  case (Cons a ps)
  have "\<forall>(n, p) \<in> set (AList.update a v acc). Q p"
    using Cons.prems set_update_subset[of a v acc] by auto
  from Cons.IH[OF this Cons.prems(2)] show ?case by simp
qed

lemma duration_sum_new: "totalTime new_participant = duration_sum new_participant"
  by (simp add: new_participant_def duration_sum_def segs_of_def)

lemma duration_sum_close:
  "totalTime p = duration_sum p \<Longrightarrow> totalTime (close_turn now st p) = duration_sum (close_turn now st p)"
  by (simp add: close_turn_def duration_sum_def segs_of_def)

text \<open>
  Claim C6. In every state reachable from \<^verbatim>\<open>initializeSpeakingTime\<close> by
  \<^verbatim>\<open>startSpeaking\<close>, \<^verbatim>\<open>stopTracking\<close>, \<^verbatim>\<open>addParty\<close> and \<^verbatim>\<open>removeParty\<close> calls, the
  \<^verbatim>\<open>totalTime\<close> of every participant is the sum of the durations of that participant's
  segments. The state has a parties object, and its references are allocated.
\<close>

theorem totalTime_is_sum_of_durations:
  "reachable h s \<Longrightarrow>
   valid h s \<and> parties s \<noteq> None \<and>
   (\<forall>(name, p) \<in> set (participants h s). totalTime p = sum_list (map seg_duration (segs_of p)))"
proof -
  assume r: "reachable h s"
  let ?P = "\<lambda>obj (tl :: timeline_entry list). \<forall>(name, p) \<in> set obj. totalTime p = duration_sum p"
  have "wf_with ?P h s"
  proof (rule reachable_wf[OF r])
    show "?P (fold (\<lambda>party acc. AList.update party new_participant acc) ps []) []" for ps
      by (rule fold_update_all) (simp_all add: duration_sum_new)
    show "?P (AList.update k new_participant obj) tl" if "?P obj tl" for obj tl k
      using that set_update_subset[of k new_participant obj] duration_sum_new by auto
    show "?P (AList.update cs (close_turn now st p) obj) (tl @ [turn_entry now st cs])"
      if "?P obj tl" "map_of obj cs = Some p" for obj tl cs p st now
    proof -
      from that have "totalTime p = duration_sum p" by (auto dest: map_of_SomeD)
      then have "totalTime (close_turn now st p) = duration_sum (close_turn now st p)"
        by (rule duration_sum_close)
      with that(1) set_update_subset[of cs "close_turn now st p" obj] show ?thesis by auto
    qed
    show "?P (AList.delete k obj) tl" if "?P obj tl" for obj tl k
      using that set_delete_subset[of k obj] by auto
  qed
  from wf_with_views[OF this] show ?thesis by (simp add: duration_sum_def)
qed

text \<open>
  The run start, switch, stop is reachable; its two participants have 5000 and 3000
  milliseconds, each the sum of the one segment recorded.
\<close>

theorem totalTime_is_sum_of_durations_witness:
  "reachable (fst run_a3) (snd run_a3) \<and> valid (fst run_a3) (snd run_a3) \<and>
   map (\<lambda>(name, p). (name, totalTime p, sum_list (map seg_duration (segs_of p))))
     (participants (fst run_a3) (snd run_a3)) =
   [(''State'', 5000, 5000), (''Defense'', 3000, 3000)]"
proof -
  note t = totalTime_is_sum_of_durations[OF run_a_reachable(4)]
  have ps: "map (\<lambda>(name, p). (name, totalTime p)) (participants (fst run_a3) (snd run_a3)) =
     [(''State'', 5000), (''Defense'', 3000)]"
    by (simp add: run_a3_val participants_def store_defs)
  from t have "map (\<lambda>(name, p). (name, totalTime p, sum_list (map seg_duration (segs_of p))))
     (participants (fst run_a3) (snd run_a3)) =
     map (\<lambda>(name, p). (name, totalTime p, totalTime p)) (participants (fst run_a3) (snd run_a3))"
    by (intro map_cong) auto
  also have "\<dots> = map (\<lambda>(name, t). (name, t, t))
      (map (\<lambda>(name, p). (name, totalTime p)) (participants (fst run_a3) (snd run_a3)))"
    by (simp add: case_prod_beta)
  also have "\<dots> = [(''State'', 5000, 5000), (''Defense'', 3000, 3000)]"
    by (simp add: ps)
  finally show ?thesis using t run_a_reachable(4) by simp
qed











text \<open>
  Further facts about reachable states. Both references stay allocated, so
  \<^verbatim>\<open>removeParty\<close> returns on every reachable state; and a state that is active has a
  current speaker (the converse fails after a restart, as the run above shows).
\<close>

lemma reachable_valid: "reachable h s \<Longrightarrow> wf_with (\<lambda>obj tle. True) h s"
  by (rule reachable_wf) simp_all

lemma removeParty_reachable_returns:
  "reachable h s \<Longrightarrow> \<exists>h1. removeParty h (Some s) name = Inr (h1, Some s)"
  by (drule reachable_valid) (auto simp: removeParty_def wf_with_def split: option.splits)

lemma active_has_speaker: "reachable h s \<Longrightarrow> isActive s \<Longrightarrow> currentSpeaker s \<noteq> None"
proof (induction rule: reachable.induct)
  case (r_init h0 arg h s)
  then show ?case by (auto simp: initializeSpeakingTime_def Let_def store_defs)
next
  case (r_start h s now party h1 s1)
  from r_start.hyps(1) have "wf_with (\<lambda>obj tle. True) h s" by (rule reachable_valid)
  then obtain pa ta where "parties s = Some pa" "timeline s = Some ta"
    by (auto dest: wf_withD)
  with r_start.hyps(2) r_start.prems r_start.IH show ?case
    by (cases party)
      (auto simp: startSpeaking_def ensure_parties_def ensure_timeline_def Let_def
        split: if_splits)
next
  case (r_stop h s now h1 s1)
  from r_stop.hyps(1) have "wf_with (\<lambda>obj tle. True) h s" by (rule reachable_valid)
  then obtain pa ta where "parties s = Some pa" "timeline s = Some ta"
    by (auto dest: wf_withD)
  with r_stop.hyps(2) r_stop.prems show ?case
    by (auto simp: stopTracking_def ensure_parties_def ensure_timeline_def Let_def)
next
  case (r_add h s name h1 s1)
  from r_add.hyps(1) have "wf_with (\<lambda>obj tle. True) h s" by (rule reachable_valid)
  then obtain pa ta where "parties s = Some pa" "timeline s = Some ta"
    by (auto dest: wf_withD)
  with r_add.hyps(2) r_add.prems r_add.IH show ?case
    by (cases name) (auto simp: addParty_def ensure_parties_def Let_def split: if_splits)
next
  case (r_remove h s name h1 s1)
  then show ?case by (auto simp: removeParty_def split: if_splits option.splits)
qed

section \<open>Party registry: claim C9\<close>





section \<open>Text report: claim C10\<close>

lemma fold_timeline_step:
  "fold (timeline_step f) xs r =
     r @ concat (map (\<lambda>(index, e). entry_line f index (or0 (tl_start e)) e)
       (filter (\<lambda>(index, e). truthy_time (tl_start e) \<and> tl_party e \<noteq> [] \<and>
                               tl_duration e \<noteq> MsUndefined) xs))"
  by (induction xs arbitrary: r)
    (auto simp: timeline_step_def truthy_time_def or0_def split: option.splits)

lemma filter_enumerate_none:
  "\<forall>e \<in> set xs. \<not> Q e \<Longrightarrow> filter (\<lambda>(index, e). Q e) (enumerate n xs) = []"
  by (induction xs arbitrary: n) simp_all

lemma report_absent_state:
  "generateTextReport tls tlt pct h None info =
     report_head tls
       (calculateStatistics pct (fst (initializeSpeakingTime h None))
          (Some (snd (initializeSpeakingTime h None))))
       (snd (initializeSpeakingTime h None))
       (case info of None \<Rightarrow> Map.empty | Some i \<Rightarrow> i)"
  by (simp add: generateTextReport_def case_prod_beta)
    (simp add: initializeSpeakingTime_def Let_def store_defs)

lemma entry_line_nonempty: "entry_line f index t e \<noteq> []"
  by (simp add: entry_line_def show_nat_nonempty)

text \<open>
  Claim C10. The \<^verbatim>\<open>TIMELINE\<close> section of \<^verbatim>\<open>generateTextReport\<close> consists of one line
  for each timeline entry whose start is truthy (present and not 0), whose party is
  truthy (not the empty string) and whose duration is not \<^verbatim>\<open>undefined\<close>, in order and
  numbered by position, and of nothing else; every such line is non-empty. An entry whose
  start is exactly 0 or whose party is the empty string is left out: when all entries are
  of that kind the report ends with the \<^verbatim>\<open>TIMELINE\<close> heading. For an absent state
  the report is that of a fresh default state, whose timeline is empty.
\<close>

theorem timeline_section_lists_truthy_entries:
  "generateTextReport tls tlt pct h (Some s) info =
     report_head tls (calculateStatistics pct h (Some s)) s
       (case info of None \<Rightarrow> Map.empty | Some i \<Rightarrow> i) @
     concat (map (\<lambda>(index, e). entry_line tlt index (or0 (tl_start e)) e)
       (filter (\<lambda>(index, e). truthy_time (tl_start e) \<and> tl_party e \<noteq> [] \<and>
                               tl_duration e \<noteq> MsUndefined)
          (enumerate 0 (timeline_of h s)))) \<and>
   (\<forall>index t e. entry_line tlt index t e \<noteq> []) \<and>
   ((\<forall>e \<in> set (timeline_of h s). tl_start e = Some 0 \<or> tl_party e = []) \<longrightarrow>
      generateTextReport tls tlt pct h (Some s) info =
        report_head tls (calculateStatistics pct h (Some s)) s
          (case info of None \<Rightarrow> Map.empty | Some i \<Rightarrow> i)) \<and>
   generateTextReport tls tlt pct h None info =
     report_head tls
       (calculateStatistics pct (fst (initializeSpeakingTime h None))
          (Some (snd (initializeSpeakingTime h None))))
       (snd (initializeSpeakingTime h None))
       (case info of None \<Rightarrow> Map.empty | Some i \<Rightarrow> i)"
proof -
  have a: "generateTextReport tls tlt pct h (Some s) info =
     report_head tls (calculateStatistics pct h (Some s)) s
       (case info of None \<Rightarrow> Map.empty | Some i \<Rightarrow> i) @
     concat (map (\<lambda>(index, e). entry_line tlt index (or0 (tl_start e)) e)
       (filter (\<lambda>(index, e). truthy_time (tl_start e) \<and> tl_party e \<noteq> [] \<and>
                               tl_duration e \<noteq> MsUndefined)
          (enumerate 0 (timeline_of h s))))"
    by (simp add: generateTextReport_def fold_timeline_step timeline_of_def)
  have b: "filter (\<lambda>(index, e). truthy_time (tl_start e) \<and> tl_party e \<noteq> [] \<and>
                               tl_duration e \<noteq> MsUndefined)
          (enumerate 0 (timeline_of h s)) = []"
    if "\<forall>e \<in> set (timeline_of h s). tl_start e = Some 0 \<or> tl_party e = []"
    by (rule filter_enumerate_none) (use that in \<open>auto simp: truthy_time_def\<close>)
  show ?thesis using a b entry_line_nonempty report_absent_state by simp
qed

text \<open>
  The run whose clock starts at 0: the turn of \<^verbatim>\<open>State\<close> that started at 0 is in the
  timeline and not in the report; the turn of \<^verbatim>\<open>Defense\<close> is listed as number 2.
\<close>

theorem timeline_section_lists_truthy_entries_witness:
  "timeline_of (fst run_z3) (snd run_z3) =
     [\<lparr>tl_party = ''State'', tl_start = Some 0, tl_end = 5000, tl_duration = MsNum 5000\<rparr>,
      \<lparr>tl_party = ''Defense'', tl_start = Some 5000, tl_end = 8000, tl_duration = MsNum 3000\<rparr>] \<and>
   generateTextReport (\<lambda>t. ''D'') (\<lambda>t. ''T'') (\<lambda>a b. ''P'') (fst run_z3) (Some (snd run_z3)) None =
     report_head (\<lambda>t. ''D'')
       (calculateStatistics (\<lambda>a b. ''P'') (fst run_z3) (Some (snd run_z3))) (snd run_z3) Map.empty @
     ''2. T - Defense (0:03)'' @ nl \<and>
   timeline_of (fst run_z2) (snd run_z2) =
     [\<lparr>tl_party = ''State'', tl_start = Some 0, tl_end = 5000, tl_duration = MsNum 5000\<rparr>] \<and>
   generateTextReport (\<lambda>t. ''D'') (\<lambda>t. ''T'') (\<lambda>a b. ''P'') (fst run_z2) (Some (snd run_z2)) None =
     report_head (\<lambda>t. ''D'')
       (calculateStatistics (\<lambda>a b. ''P'') (fst run_z2) (Some (snd run_z2))) (snd run_z2) Map.empty"
proof -
  have t3: "timeline_of (fst run_z3) (snd run_z3) =
     [\<lparr>tl_party = ''State'', tl_start = Some 0, tl_end = 5000, tl_duration = MsNum 5000\<rparr>,
      \<lparr>tl_party = ''Defense'', tl_start = Some 5000, tl_end = 8000, tl_duration = MsNum 3000\<rparr>]"
    by (simp add: run_z3_val timeline_of_def store_defs)
  have t2: "timeline_of (fst run_z2) (snd run_z2) =
     [\<lparr>tl_party = ''State'', tl_start = Some 0, tl_end = 5000, tl_duration = MsNum 5000\<rparr>]"
    by (simp add: run_z2_val timeline_of_def store_defs)
  have f: "formatTime (MsNum 3000) = ''0:03''"
    by (simp add: formatTime_def show_nat.simps padStart2_def digit_char_def)
  note th3 = timeline_section_lists_truthy_entries[of "\<lambda>t. ''D''" "\<lambda>t. ''T''" "\<lambda>a b. ''P''"
      "fst run_z3" "snd run_z3" None]
  note th2 = timeline_section_lists_truthy_entries[of "\<lambda>t. ''D''" "\<lambda>t. ''T''" "\<lambda>a b. ''P''"
      "fst run_z2" "snd run_z2" None]
  have a: "generateTextReport (\<lambda>t. ''D'') (\<lambda>t. ''T'') (\<lambda>a b. ''P'') (fst run_z3) (Some (snd run_z3)) None =
     report_head (\<lambda>t. ''D'')
       (calculateStatistics (\<lambda>a b. ''P'') (fst run_z3) (Some (snd run_z3))) (snd run_z3) Map.empty @
     ''2. T - Defense (0:03)'' @ nl"
    using th3 by (simp add: t3 truthy_time_def entry_line_def or0_def f show_nat.simps digit_char_def)
  have b: "generateTextReport (\<lambda>t. ''D'') (\<lambda>t. ''T'') (\<lambda>a b. ''P'') (fst run_z2) (Some (snd run_z2)) None =
     report_head (\<lambda>t. ''D'')
       (calculateStatistics (\<lambda>a b. ''P'') (fst run_z2) (Some (snd run_z2))) (snd run_z2) Map.empty"
    using th2 by (simp add: t2 truthy_time_def)
  show ?thesis using t3 t2 a b by blast
qed

section \<open>Round trip of two speakers: claim C7\<close>

text \<open>
  Claim C7 says that after \<^verbatim>\<open>startSpeaking(A)\<close> at \<open>t\<close>, \<^verbatim>\<open>startSpeaking(B)\<close> at
  \<open>t + d1\<close> and \<^verbatim>\<open>stopTracking()\<close> at \<open>t + d1 + d2\<close> the statistics report a total
  hearing time of \<open>d1 + d2\<close>. With the clock at \<open>t = 0\<close>, \<open>d1 = 5000\<close> and
  \<open>d2 = 3000\<close> the reported total hearing time is 3000: the test
  \<^verbatim>\<open>!newState.hearingStartTime\<close> takes the timestamp 0 for a missing one, and the second
  \<^verbatim>\<open>startSpeaking\<close> sets the hearing start again.
\<close>

theorem round_trip_from_clock_zero:
  "totalHearingTime (calculateStatistics toFixed1 (fst run_z3) (Some (snd run_z3))) = 3000 \<and>
   totalSpeakingTime (calculateStatistics toFixed1 (fst run_z3) (Some (snd run_z3))) = 8000 \<and>
   map_option ps_totalTime
     (map_of (stats_parties (calculateStatistics toFixed1 (fst run_z3) (Some (snd run_z3)))) ''State'')
     = Some 5000 \<and>
   map_option ps_totalTime
     (map_of (stats_parties (calculateStatistics toFixed1 (fst run_z3) (Some (snd run_z3)))) ''Defense'')
     = Some 3000"
  by (simp add: run_z3_val calculateStatistics_def party_statistics_def or0_def store_defs
      segs_of_def Let_def)

text \<open>
  Away from the clock reading 0 the round trip comes out as expected, for every
  initial participant list and every store: with \<open>t\<close> and \<open>t + d1\<close> different from 0
  and \<open>d1 + d2\<close> not negative, the statistics report the total hearing time
  \<open>d1 + d2\<close>, the times \<open>d1\<close> and \<open>d2\<close> of the two speakers and no silence.
\<close>

lemma register_party_alloc:
  "register_party \<lparr>parties_objs = xs @ [obj], timeline_arrs = ts\<rparr> (length xs) k =
   \<lparr>parties_objs = xs @ [registered k obj], timeline_arrs = ts\<rparr>"
  by (simp add: register_party_def registered_def store_defs split: option.splits)

lemma finalize_turn_alloc:
  "finalize_turn now \<lparr>parties_objs = xs @ [obj], timeline_arrs = ts @ [tle]\<rparr>
     (length xs) (length ts) cs p st =
   \<lparr>parties_objs = xs @ [AList.update cs (close_turn now st p) obj],
    timeline_arrs = ts @ [tle @ [turn_entry now st cs]]\<rparr>"
  by (simp add: finalize_turn_def store_defs)

lemma round_trip_objects:
  assumes a: "a \<noteq> []" and b: "b \<noteq> []" and ab: "a \<noteq> b" and t: "t \<noteq> 0" "t + d1 \<noteq> 0"
    and i: "initializeSpeakingTime h0 arg = (h1, s1)"
    and s1: "startSpeaking t h1 (Some s1) (JStr a) = (h2, s2)"
    and s2: "startSpeaking (t + d1) h2 (Some s2) (JStr b) = (h3, s3)"
    and s3: "stopTracking (t + d1 + d2) h3 (Some s3) = (h4, s4)"
  shows "\<exists>obj0. (\<forall>(n, p) \<in> set obj0. p = new_participant) \<and>
     participants h4 s4 =
       AList.update b (close_turn (t + d1 + d2) (Some (t + d1)) new_participant)
         (registered b (AList.update a (close_turn (t + d1) (Some t) new_participant) (registered a obj0))) \<and>
     hearingStartTime s4 = Some t \<and> hearingEndTime s4 = Some (t + d1 + d2)"
proof -
  define obj0 where "obj0 = fold (\<lambda>party acc. AList.update party new_participant acc)
     (case arg of None \<Rightarrow> default_parties | Some l \<Rightarrow> l) []"
  define xs where "xs = parties_objs h0"
  define ts where "ts = timeline_arrs h0"
  have all0: "\<forall>(n, p) \<in> set obj0. p = new_participant"
    unfolding obj0_def by (rule fold_update_all) simp_all
  have h1: "h1 = \<lparr>parties_objs = xs @ [obj0], timeline_arrs = ts @ [[]]\<rparr>"
    and s1v: "s1 = \<lparr>parties = Some (length xs), currentSpeaker = None, startTime = None,
           hearingStartTime = None, hearingEndTime = None,
           isActive = False, isPaused = False, timeline = Some (length ts)\<rparr>"
    using i by (auto simp: initializeSpeakingTime_def Let_def store_defs obj0_def xs_def ts_def)
  have ra: "map_of (registered a obj0) a = Some new_participant"
    using all0 by (auto simp: registered_def update_conv' split: option.splits dest!: map_of_SomeD)
  have h2: "h2 = \<lparr>parties_objs = xs @ [registered a obj0], timeline_arrs = ts @ [[]]\<rparr>"
    and s2v: "s2 = \<lparr>parties = Some (length xs), currentSpeaker = Some a, startTime = Some t,
           hearingStartTime = Some t, hearingEndTime = None,
           isActive = True, isPaused = False, timeline = Some (length ts)\<rparr>"
    using s1 a unfolding h1 s1v
    by (simp_all add: startSpeaking_def ensure_parties_def ensure_timeline_def truthy_time_def
        register_party_alloc)
  have rb: "map_of (AList.update a (close_turn (t + d1) (Some t) new_participant) (registered a obj0)) b
      = map_of (registered a obj0) b"
    using ab by (simp add: update_conv')
  have all1: "\<forall>(n, p) \<in> set (registered a obj0). p = new_participant"
    using all0 set_update_subset[of a new_participant obj0]
    by (auto simp: registered_def split: option.splits)
  define obj2 where "obj2 = AList.update a (close_turn (t + d1) (Some t) new_participant) (registered a obj0)"
  have rb2: "map_of (registered b obj2) b = Some new_participant"
  proof (cases "map_of (registered a obj0) b")
    case None
    then show ?thesis using rb by (simp add: registered_def obj2_def update_conv')
  next
    case (Some p)
    with all1 have "p = new_participant" by (auto dest!: map_of_SomeD)
    with Some rb show ?thesis by (simp add: registered_def obj2_def)
  qed
  have h3: "h3 = \<lparr>parties_objs = xs @ [registered b obj2],
                    timeline_arrs = ts @ [[turn_entry (t + d1) (Some t) a]]\<rparr>"
    and s3v: "s3 = \<lparr>parties = Some (length xs), currentSpeaker = Some b, startTime = Some (t + d1),
           hearingStartTime = Some t, hearingEndTime = None,
           isActive = True, isPaused = False, timeline = Some (length ts)\<rparr>"
    using s2 a b ab t ra unfolding h2 s2v
    by (simp_all add: startSpeaking_def ensure_parties_def ensure_timeline_def truthy_time_def
        finalize_turn_alloc register_party_alloc get_parties_def obj2_def)
  have h4: "participants h4 s4 =
       AList.update b (close_turn (t + d1 + d2) (Some (t + d1)) new_participant) (registered b obj2)"
    and s4v: "hearingStartTime s4 = Some t" "hearingEndTime s4 = Some (t + d1 + d2)"
    using s3 b t rb2 unfolding h3 s3v
    by (auto simp add: stopTracking_def ensure_parties_def ensure_timeline_def truthy_time_def
        finalize_turn_alloc get_parties_def participants_def)
  show ?thesis using all0 h4 s4v unfolding obj2_def by blast
qed

lemma foldl_totalTime: "foldl (\<lambda>sum party. sum + totalTime party) z ps = z + sum_list (map totalTime ps)"
  by (induction ps arbitrary: z) simp_all

lemma speaking_sum_times:
  "foldl (\<lambda>sum party. sum + totalTime party) 0 (map snd obj) = sum_times obj"
  by (simp add: foldl_totalTime sum_times_def comp_def split_def)

lemma sum_times_update:
  "map_of obj k = Some p \<Longrightarrow> sum_times (AList.update k q obj) = sum_times obj - totalTime p + totalTime q"
  by (induction obj) (auto simp: sum_times_def split: if_splits)

lemma sum_times_new: "\<forall>(n, p) \<in> set obj. p = new_participant \<Longrightarrow> sum_times obj = 0"
  by (induction obj) (auto simp: sum_times_def new_participant_def)

lemma sum_times_registered: "sum_times (registered k obj) = sum_times obj"
  by (auto simp: registered_def update_absent sum_times_def new_participant_def split: option.splits)

lemma map_of_registered_other: "k \<noteq> j \<Longrightarrow> map_of (registered k obj) j = map_of obj j"
  by (auto simp: registered_def update_conv' split: option.splits)

lemma close_turn_new: "totalTime (close_turn (t + d) (Some t) new_participant) = d"
  by (simp add: close_turn_def turn_duration_def new_participant_def)

lemma round_trip_nonzero_clock:
  assumes a: "a \<noteq> []" and b: "b \<noteq> []" and ab: "a \<noteq> b" and t: "t \<noteq> 0" "t + d1 \<noteq> 0"
    and d: "0 \<le> d1 + d2"
    and i: "initializeSpeakingTime h0 arg = (h1, s1)"
    and s1: "startSpeaking t h1 (Some s1) (JStr a) = (h2, s2)"
    and s2: "startSpeaking (t + d1) h2 (Some s2) (JStr b) = (h3, s3)"
    and s3: "stopTracking (t + d1 + d2) h3 (Some s3) = (h4, s4)"
  shows "totalHearingTime (calculateStatistics pct h4 (Some s4)) = d1 + d2 \<and>
    totalSpeakingTime (calculateStatistics pct h4 (Some s4)) = d1 + d2 \<and>
    silenceTime (calculateStatistics pct h4 (Some s4)) = 0 \<and>
    map_option ps_totalTime (map_of (stats_parties (calculateStatistics pct h4 (Some s4))) a) = Some d1 \<and>
    map_option ps_totalTime (map_of (stats_parties (calculateStatistics pct h4 (Some s4))) b) = Some d2"
proof -
  from round_trip_objects[OF a b ab t i s1 s2 s3] obtain obj0 where
    all0: "\<forall>(n, p) \<in> set obj0. p = new_participant"
    and ps: "participants h4 s4 =
       AList.update b (close_turn (t + d1 + d2) (Some (t + d1)) new_participant)
         (registered b (AList.update a (close_turn (t + d1) (Some t) new_participant) (registered a obj0)))"
    and hs: "hearingStartTime s4 = Some t" and he: "hearingEndTime s4 = Some (t + d1 + d2)"
    by blast
  define obj2 where "obj2 = AList.update a (close_turn (t + d1) (Some t) new_participant) (registered a obj0)"
  have ra: "map_of (registered a obj0) a = Some new_participant"
    using all0 by (auto simp: registered_def update_conv' split: option.splits dest!: map_of_SomeD)
  have all1: "\<forall>(n, p) \<in> set (registered a obj0). p = new_participant"
    using all0 set_update_subset[of a new_participant obj0]
    by (auto simp: registered_def split: option.splits)
  have rb2: "map_of (registered b obj2) b = Some new_participant"
  proof (cases "map_of (registered a obj0) b")
    case None
    then show ?thesis using ab by (simp add: registered_def obj2_def update_conv')
  next
    case (Some p)
    with all1 have "p = new_participant" by (auto dest!: map_of_SomeD)
    with Some ab show ?thesis by (simp add: registered_def obj2_def update_conv')
  qed
  have t2: "sum_times obj2 = d1"
    using sum_times_update[OF ra, of "close_turn (t + d1) (Some t) new_participant"]
      sum_times_new[OF all0]
    by (simp add: obj2_def sum_times_registered close_turn_new) (simp add: new_participant_def)
  have c2: "totalTime (close_turn (t + d1 + d2) (Some (t + d1)) new_participant) = d2"
    using close_turn_new[of "t + d1" d2] by (simp add: add.assoc)
  have t4: "sum_times (participants h4 s4) = d1 + d2"
    using sum_times_update[OF rb2, of "close_turn (t + d1 + d2) (Some (t + d1)) new_participant"] t2
    by (simp add: ps obj2_def[symmetric] sum_times_registered c2) (simp add: new_participant_def)
  have ma: "map_option totalTime (map_of (participants h4 s4) a) = Some d1"
    using ab by (simp add: ps update_conv' map_of_registered_other close_turn_new)
  have mb: "map_option totalTime (map_of (participants h4 s4) b) = Some d2"
    by (simp add: ps update_conv' c2)
  have st: "map_option ps_totalTime (map_of (stats_parties (calculateStatistics pct h4 (Some s4))) k)
      = map_option totalTime (map_of (participants h4 s4) k)" for k
    by (simp add: calculateStatistics_def Let_def participants_def[symmetric] map_of_map
        party_statistics_def option.map_comp comp_def)
  show ?thesis
    using d
    by (simp add: st ma mb)
      (simp add: calculateStatistics_def Let_def participants_def[symmetric] speaking_sum_times
        t4 hs he or0_def)
qed

end
